theory Spec2Isabelle
  imports Main
begin

section \<open>Package valuepath: a shallow embedding\<close>

text \<open>
  The Go file of package \<^verbatim>\<open>valuepath\<close> is a half-finished refactoring and is not
  well-typed as it stands. The embedding follows the statements of the source line by line
  and resolves the ill-typed places in the way stated here, once and for all:

  \<^item> \<^verbatim>\<open>if !strings.IndexAny(subject, "[]")\<close> negates an \<^verbatim>\<open>int\<close>. The comment above it
    says the branch is taken when there are no square brackets in the string, so the test
    is read as \<^verbatim>\<open>strings.IndexAny(subject, "[]") < 0\<close>.
  \<^item> The struct literals \<^verbatim>\<open>pathPart{pathType: pathTypeField, ...}\<close> name a field and a
    constant that do not exist; they are read as \<^verbatim>\<open>partType: partTypeField\<close>.
  \<^item> \<^verbatim>\<open>Path.parts\<close> is declared \<^verbatim>\<open>[]pathPart\<close>, but \<^verbatim>\<open>String\<close>, \<^verbatim>\<open>Pop\<close>,
    \<^verbatim>\<open>PopFront\<close>, \<^verbatim>\<open>PushBack\<close>, \<^verbatim>\<open>HasPrefix\<close> and \<^verbatim>\<open>HasPrefixFold\<close> use its elements
    as strings. Where a part is used as a string, its only string, \<^verbatim>\<open>fieldOrKey\<close>, is
    taken (\<open>partString\<close>); where a string is stored as a part, the part has that
    \<^verbatim>\<open>fieldOrKey\<close> and zero values elsewhere (\<open>stringPart\<close>).
  \<^item> \<^verbatim>\<open>unicode.IsDigit(nextChar)\<close> and \<^verbatim>\<open>idxStr += nextChar\<close> apply to a byte; the
    byte is converted to a rune, respectively appended.
  \<^item> The malformed returns of \<^verbatim>\<open>findElementIndexWithClosingOffset\<close>
    (\<^verbatim>\<open>return nil, ErrInvalidPath\<close> and \<^verbatim>\<open>return -1. - 1, ErrInvalidPath\<close>) return the error.

  Go strings are byte sequences: \<open>string\<close> (\<open>char list\<close>). A Go \<^verbatim>\<open>int\<close> is an \<open>int\<close>,
  64 bits wide where its range matters (\<open>maxInt\<close>). A run-time panic is the error value
  \<open>PanicOutOfRange\<close>; a call that never returns is \<open>None\<close>.
\<close>

subsection \<open>Functions of the Go library\<close>

definition byte :: "char \<Rightarrow> nat" where
  "byte c = of_char c"

text \<open>\<^verbatim>\<open>strings.IndexAny(s, chars)\<close>, for ASCII \<open>chars\<close>: the index of the first byte of
  \<open>s\<close> that is in \<open>chars\<close>, or \<open>-1\<close>.\<close>

fun IndexAny :: "string \<Rightarrow> string \<Rightarrow> int" where
  "IndexAny [] chars = - 1"
| "IndexAny (c # s) chars =
     (if c \<in> set chars then 0
      else (let i = IndexAny s chars in if i < 0 then - 1 else i + 1))"

text \<open>\<^verbatim>\<open>strings.Split(s, sep)\<close> for a separator of one byte: one more piece than there
  are separators, so \<^verbatim>\<open>Split("", ".")\<close> is the one-element list holding the empty string.\<close>

fun Split :: "string \<Rightarrow> char \<Rightarrow> string list" where
  "Split [] sep = [[]]"
| "Split (c # s) sep =
     (if c = sep then [] # Split s sep
      else (case Split s sep of [] \<Rightarrow> [[c]] | f # fs \<Rightarrow> (c # f) # fs))"

fun Join :: "string list \<Rightarrow> string \<Rightarrow> string" where
  "Join [] sep = []"
| "Join [x] sep = x"
| "Join (x # y # ys) sep = x @ sep @ Join (y # ys) sep"

text \<open>\<^verbatim>\<open>unicode.IsDigit\<close> on a rune below 256 holds exactly for \<^verbatim>\<open>'0'\<close> to \<^verbatim>\<open>'9'\<close>.\<close>

definition IsDigit :: "char \<Rightarrow> bool" where
  "IsDigit c = (byte (CHR ''0'') \<le> byte c \<and> byte c \<le> byte (CHR ''9''))"

definition maxInt :: int where
  "maxInt = 2 ^ 63 - 1"

fun decimal :: "string \<Rightarrow> int \<Rightarrow> int" where
  "decimal [] acc = acc"
| "decimal (c # s) acc = decimal s (10 * acc + (int (byte c) - int (byte (CHR ''0''))))"

text \<open>\<^verbatim>\<open>strconv.Atoi\<close> on the strings this package passes to it (a digit followed by
  digits): the decimal value, or an error (\<open>None\<close>) when it does not fit an \<^verbatim>\<open>int\<close>.\<close>

definition Atoi :: "string \<Rightarrow> int option" where
  "Atoi s =
     (if s = [] \<or> \<not> list_all IsDigit s then None
      else if decimal s 0 > maxInt then None
      else Some (decimal s 0))"

text \<open>
  \<^verbatim>\<open>strings.EqualFold(s, t)\<close>. Its first loop compares bytes while both are ASCII,
  identifying an upper-case letter with its lower-case one. At the first byte that is not
  ASCII it decodes the rest of both strings into runes and compares them rune by rune,
  identifying runes of one orbit of \<^verbatim>\<open>unicode.SimpleFold\<close>. The UTF-8 decoding (\<open>runes\<close>)
  and the orbits of the Unicode tables (\<open>orbit lo hi\<close>, for \<open>lo < hi\<close>) are parameters.
\<close>

definition foldRune :: "(nat \<Rightarrow> nat \<Rightarrow> bool) \<Rightarrow> nat \<Rightarrow> nat \<Rightarrow> bool" where
  "foldRune orbit sr tr =
     (if tr = sr then True
      else let lo = min sr tr; hi = max sr tr in
        if hi < 128 then 65 \<le> lo \<and> lo \<le> 90 \<and> hi = lo + 32
        else orbit lo hi)"

definition hasUnicode ::
  "(string \<Rightarrow> nat list) \<Rightarrow> (nat \<Rightarrow> nat \<Rightarrow> bool) \<Rightarrow> string \<Rightarrow> string \<Rightarrow> bool" where
  "hasUnicode runes orbit s t = list_all2 (foldRune orbit) (runes s) (runes t)"

fun EqualFold ::
  "(string \<Rightarrow> nat list) \<Rightarrow> (nat \<Rightarrow> nat \<Rightarrow> bool) \<Rightarrow> string \<Rightarrow> string \<Rightarrow> bool" where
  "EqualFold runes orbit (sr # s) (tr # t) =
     (if byte sr \<ge> 128 \<or> byte tr \<ge> 128 then hasUnicode runes orbit (sr # s) (tr # t)
      else if tr = sr then EqualFold runes orbit s t
      else let lo = min (byte sr) (byte tr); hi = max (byte sr) (byte tr) in
        if 65 \<le> lo \<and> lo \<le> 90 \<and> hi = lo + 32 then EqualFold runes orbit s t
        else False)"
| "EqualFold runes orbit s t = (length s = length t)"

subsection \<open>Path parts, paths and errors\<close>

datatype partType = partTypeField | partTypeElement | partTypeKey

record pathPart =
  partType :: partType
  index :: int
  fieldOrKey :: string

text \<open>A \<open>Path\<close> as a value: the sequence of parts that its \<^verbatim>\<open>parts\<close> slice holds.\<close>

record Path =
  parts :: "pathPart list"

datatype error = ErrInvalidPath | PanicOutOfRange

text \<open>The three struct literals of \<^verbatim>\<open>FromString\<close>; fields left out are zero.\<close>

definition fieldPart :: "string \<Rightarrow> pathPart" where
  "fieldPart field = \<lparr>partType = partTypeField, index = 0, fieldOrKey = field\<rparr>"

definition elementPart :: "int \<Rightarrow> pathPart" where
  "elementPart idx = \<lparr>partType = partTypeElement, index = idx, fieldOrKey = []\<rparr>"

definition keyPart :: "string \<Rightarrow> pathPart" where
  "keyPart mapKey = \<lparr>partType = partTypeKey, index = 0, fieldOrKey = mapKey\<rparr>"

definition partString :: "pathPart \<Rightarrow> string" where
  "partString part = fieldOrKey part"

definition stringPart :: "string \<Rightarrow> pathPart" where
  "stringPart s = \<lparr>partType = partTypeField, index = 0, fieldOrKey = s\<rparr>"

subsection \<open>The parser\<close>

text \<open>The loop of \<^verbatim>\<open>findElementIndexWithClosingOffset\<close>; it ends because \<open>cursor\<close>
  grows in every round.\<close>

function findElementIndex_loop :: "string \<Rightarrow> string \<Rightarrow> int \<Rightarrow> error + (int \<times> int)" where
  "findElementIndex_loop subject idxStr cursor =
     (if cursor < 0 then Inl PanicOutOfRange
      else if cursor \<ge> int (length subject) then Inl ErrInvalidPath
      else let nextChar = subject ! nat cursor in
        if IsDigit nextChar then findElementIndex_loop subject (idxStr @ [nextChar]) (cursor + 1)
        else if nextChar = CHR '']'' then
          (case Atoi idxStr of
             None \<Rightarrow> Inl ErrInvalidPath
           | Some idx \<Rightarrow> Inr (idx, cursor))
        else Inl ErrInvalidPath)"
  by pat_completeness auto
termination
  by (relation "measure (\<lambda>(subject, idxStr, cursor). nat (int (length subject) - cursor))") auto

declare findElementIndex_loop.simps [simp del]

definition findElementIndexWithClosingOffset :: "string \<Rightarrow> error + (int \<times> int)" where
  "findElementIndexWithClosingOffset subject =
     (if subject = [] then Inl PanicOutOfRange
      else let nextChar = subject ! 0 in
        findElementIndex_loop subject [nextChar] 1)"

text \<open>
  The \<^verbatim>\<open>for\<close> loop of \<^verbatim>\<open>FromString\<close>, on its variables \<^verbatim>\<open>parts\<close> (here \<open>ps\<close>),
  \<^verbatim>\<open>cursor\<close> and \<^verbatim>\<open>leftBracketPos\<close>. As in the source, \<open>idxSpecial\<close> is an index into
  \<^verbatim>\<open>subject[cursor:]\<close> but is used as an index into \<open>subject\<close>. The last branch is the
  \<^verbatim>\<open>switch\<close> that changes nothing: \<^verbatim>\<open>case '.'\<close> has an empty body, and any other byte
  matches no case. Nothing bounds the number of rounds, so not returning is \<open>None\<close>.
\<close>

partial_function (option) FromString_loop ::
  "string \<Rightarrow> pathPart list \<Rightarrow> int \<Rightarrow> int \<Rightarrow> (error + Path) option" where
  "FromString_loop subject ps cursor leftBracketPos =
     (if cursor < 0 \<or> cursor > int (length subject) then Some (Inl PanicOutOfRange)
      else let idxSpecial = IndexAny (drop (nat cursor) subject) ''[.'' in
        if idxSpecial < 0 then
          Some (Inr \<lparr>parts =
            (if cursor < int (length subject)
             then ps @ [fieldPart (drop (nat cursor) subject)]
             else ps)\<rparr>)
        else let special = subject ! nat idxSpecial in
          if special = CHR ''['' then
            if leftBracketPos > 0 then Some (Inl ErrInvalidPath)
            else let cursor = idxSpecial + 1 in
              if cursor \<ge> int (length subject) then Some (Inl ErrInvalidPath)
              else let nextChar = subject ! nat cursor in
                if nextChar = CHR 0x27 then
                  if leftBracketPos < 0 \<or> leftBracketPos > idxSpecial
                  then Some (Inl ErrInvalidPath)
                  else let mapKey = take (nat idxSpecial - nat leftBracketPos)
                                      (drop (nat leftBracketPos) subject) in
                    FromString_loop subject (ps @ [keyPart mapKey]) (idxSpecial + 1) (- 1)
                else if IsDigit nextChar then
                  (case findElementIndexWithClosingOffset (drop (nat cursor) subject) of
                     Inl PanicOutOfRange \<Rightarrow> Some (Inl PanicOutOfRange)
                   | Inl ErrInvalidPath \<Rightarrow> Some (Inl ErrInvalidPath)
                   | Inr (idx, offset) \<Rightarrow>
                       FromString_loop subject (ps @ [elementPart idx]) (cursor + offset)
                         leftBracketPos)
                else Some (Inl ErrInvalidPath)
          else FromString_loop subject ps cursor leftBracketPos)"

declare FromString_loop.simps [code]

definition FromString :: "string \<Rightarrow> (error + Path) option" where
  "FromString subject =
     (if IndexAny subject ''[]'' < 0
      then Some (Inr \<lparr>parts = map fieldPart (Split subject (CHR ''.''))\<rparr>)
      else FromString_loop subject [] 0 (- 1))"

text \<open>A state of the loop in which the next special byte is found, the byte read at its
  index is not a left bracket, and so the round changes no variable.\<close>

definition stuck :: "string \<Rightarrow> int \<Rightarrow> bool" where
  "stuck subject cursor =
     (0 \<le> cursor \<and> cursor \<le> int (length subject) \<and>
      0 \<le> IndexAny (drop (nat cursor) subject) ''[.'' \<and>
      subject ! nat (IndexAny (drop (nat cursor) subject) ''[.'') \<noteq> CHR ''['')"

text \<open>The simple dotted strings: every piece between dots is a non-empty identifier
  without dot, bracket or single quote.\<close>

definition is_identifier :: "string \<Rightarrow> bool" where
  "is_identifier f =
     (f \<noteq> [] \<and> list_all (\<lambda>c. c \<notin> set [CHR ''.'', CHR ''['', CHR '']'', CHR 0x27]) f)"

definition simple_dotted :: "string \<Rightarrow> bool" where
  "simple_dotted s = list_all is_identifier (Split s (CHR ''.''))"

subsection \<open>Methods that read a Path\<close>

definition String :: "Path \<Rightarrow> string" where
  "String p = Join (map partString (parts p)) ''.''"


definition Size :: "Path \<Rightarrow> int" where
  "Size p = int (length (parts p))"

text \<open>The \<^verbatim>\<open>range\<close> loops of \<^verbatim>\<open>HasPrefix\<close> and \<^verbatim>\<open>HasPrefixFold\<close>, at index \<open>i\<close>. The
  length test before them keeps \<open>i\<close> inside \<^verbatim>\<open>p.parts\<close>.\<close>

fun HasPrefix_loop :: "pathPart list \<Rightarrow> nat \<Rightarrow> string list \<Rightarrow> bool" where
  "HasPrefix_loop ps i [] = True"
| "HasPrefix_loop ps i (s # rest) =
     (if partString (ps ! i) \<noteq> s then False else HasPrefix_loop ps (i + 1) rest)"

definition HasPrefix :: "Path \<Rightarrow> string \<Rightarrow> bool" where
  "HasPrefix p subject =
     (let subjectSplit = Split subject (CHR ''.'') in
      if length subjectSplit > length (parts p) then False
      else HasPrefix_loop (parts p) 0 subjectSplit)"

fun HasPrefixFold_loop ::
  "(string \<Rightarrow> nat list) \<Rightarrow> (nat \<Rightarrow> nat \<Rightarrow> bool) \<Rightarrow> pathPart list \<Rightarrow> nat \<Rightarrow> string list \<Rightarrow> bool"
  where
  "HasPrefixFold_loop runes orbit ps i [] = True"
| "HasPrefixFold_loop runes orbit ps i (s # rest) =
     (if \<not> EqualFold runes orbit (partString (ps ! i)) s then False
      else HasPrefixFold_loop runes orbit ps (i + 1) rest)"

definition HasPrefixFold ::
  "(string \<Rightarrow> nat list) \<Rightarrow> (nat \<Rightarrow> nat \<Rightarrow> bool) \<Rightarrow> Path \<Rightarrow> string \<Rightarrow> bool" where
  "HasPrefixFold runes orbit p subject =
     (let subjectSplit = Split subject (CHR ''.'') in
      if length subjectSplit > length (parts p) then False
      else HasPrefixFold_loop runes orbit (parts p) 0 subjectSplit)"

subsection \<open>Slices in memory, and the methods that reslice, append or copy\<close>

text \<open>
  What \<^verbatim>\<open>Pop\<close>, \<^verbatim>\<open>PopFront\<close>, \<^verbatim>\<open>PushBack\<close>, \<^verbatim>\<open>Copy\<close> and \<^verbatim>\<open>CopyAt\<close> do depends on
  how Go represents \<^verbatim>\<open>p.parts\<close>: a slice header (array, offset, length, capacity) over
  a backing array that several headers may share. The heap holds the backing arrays by
  address. A \<^verbatim>\<open>*Path\<close> is represented by the slice header in its only field; the two
  \<^verbatim>\<open>Path\<close> structs of an original and its copy are distinct, so each header is a value
  of its own and only the arrays are shared. \<open>load\<close> reads the \<open>Path\<close> value that a
  header denotes.

  \<^verbatim>\<open>append\<close> writes in place when the capacity allows and moves to a fresh array
  otherwise. The capacity of the fresh array is chosen by the Go runtime: \<open>grow\<close> is a
  parameter, and the new capacity is at least the new length.
\<close>

type_synonym heap = "pathPart list list"

record slice =
  arr :: nat
  off :: nat
  len :: nat
  cap :: nat

definition slice_ok :: "heap \<Rightarrow> slice \<Rightarrow> bool" where
  "slice_ok h s =
     (arr s < length h \<and> len s \<le> cap s \<and> off s + cap s \<le> length (h ! arr s))"

definition load :: "heap \<Rightarrow> slice \<Rightarrow> Path" where
  "load h s = \<lparr>parts = take (len s) (drop (off s) (h ! arr s))\<rparr>"

text \<open>The literal \<^verbatim>\<open>[]pathPart{}\<close>.\<close>

definition empty_slice :: "heap \<Rightarrow> heap \<times> slice" where
  "empty_slice h = (h @ [[]], \<lparr>arr = length h, off = 0, len = 0, cap = 0\<rparr>)"

definition append_slice :: "(nat \<Rightarrow> nat) \<Rightarrow> heap \<Rightarrow> slice \<Rightarrow> pathPart \<Rightarrow> heap \<times> slice" where
  "append_slice grow h s x =
     (if len s < cap s
      then (h[arr s := (h ! arr s)[off s + len s := x]], s\<lparr>len := len s + 1\<rparr>)
      else let newcap = max (len s + 1) (grow (cap s));
               fresh = take (len s) (drop (off s) (h ! arr s)) @ [x]
                       @ replicate (newcap - (len s + 1)) (stringPart []) in
        (h @ [fresh], \<lparr>arr = length h, off = 0, len = len s + 1, cap = newcap\<rparr>))"

fun append_all :: "(nat \<Rightarrow> nat) \<Rightarrow> heap \<Rightarrow> slice \<Rightarrow> pathPart list \<Rightarrow> heap \<times> slice" where
  "append_all grow h s [] = (h, s)"
| "append_all grow h s (x # xs) =
     (case append_slice grow h s x of (h', s') \<Rightarrow> append_all grow h' s' xs)"

text \<open>The slice that \<^verbatim>\<open>FromString\<close> builds for a parsed \<open>Path\<close>: it starts from
  \<^verbatim>\<open>[]pathPart{}\<close> and appends the parts one by one.\<close>

definition store :: "(nat \<Rightarrow> nat) \<Rightarrow> heap \<Rightarrow> Path \<Rightarrow> heap \<times> slice" where
  "store grow h p = (case empty_slice h of (h', s) \<Rightarrow> append_all grow h' s (parts p))"



definition PushBack :: "(nat \<Rightarrow> nat) \<Rightarrow> heap \<Rightarrow> slice \<Rightarrow> string \<Rightarrow> heap \<times> slice" where
  "PushBack grow h s part = append_slice grow h s (stringPart part)"

text \<open>\<^verbatim>\<open>Copy\<close> puts the header \<^verbatim>\<open>p.parts\<close> itself into the new struct; \<^verbatim>\<open>CopyAt\<close>
  puts \<^verbatim>\<open>p.parts[0 : index+1]\<close> there, which keeps array, offset and capacity. The
  \<^verbatim>\<open>nil\<close> result is \<open>None\<close>.\<close>

definition Copy :: "slice \<Rightarrow> slice" where
  "Copy s = s"

definition CopyAt :: "slice \<Rightarrow> int \<Rightarrow> slice option" where
  "CopyAt s i =
     (if i < 0 \<or> len s = 0 \<or> i > int (len s) - 1 then None
      else Some (s\<lparr>len := nat (i + 1)\<rparr>))"

section \<open>Properties\<close>

subsection \<open>Splitting and joining\<close>

lemma Split_not_Nil: "Split s sep \<noteq> []"
  by (induction s) (auto split: list.splits)

lemma Join_Cons_Cons: "Join ((c # f) # fs) sep = c # Join (f # fs) sep"
  by (cases fs) simp_all

lemma Join_Split: "Join (Split s sep) [sep] = s"
proof (induction s)
  case Nil
  show ?case by simp
next
  case (Cons c s)
  obtain f fs where sp: "Split s sep = f # fs"
    using Split_not_Nil [of s sep] by (cases "Split s sep") auto
  show ?case
  proof (cases "c = sep")
    case True
    with Cons sp show ?thesis by simp
  next
    case False
    with Cons sp show ?thesis by (simp add: Join_Cons_Cons)
  qed
qed

lemma IndexAny_neg_iff: "IndexAny s chars < 0 \<longleftrightarrow> set s \<inter> set chars = {}"
  by (induction s) (auto simp: Let_def)

lemma Split_covers: "c \<in> set s \<Longrightarrow> c \<noteq> sep \<Longrightarrow> \<exists>f \<in> set (Split s sep). c \<in> set f"
proof (induction s)
  case Nil
  then show ?case by simp
next
  case (Cons a s)
  obtain f fs where sp: "Split s sep = f # fs"
    using Split_not_Nil [of s sep] by (cases "Split s sep") auto
  show ?case
  proof (cases "c \<in> set s")
    case True
    with Cons sp show ?thesis by (auto split: if_splits)
  next
    case False
    with Cons.prems have "c = a" by simp
    with Cons.prems sp show ?thesis by auto
  qed
qed

lemma simple_dotted_no_bracket:
  assumes sd: "simple_dotted s"
  shows "IndexAny s ''[]'' < 0"
proof -
  have "c \<notin> set s" if "c \<in> set ''[]''" for c
  proof
    assume "c \<in> set s"
    moreover from that have "c \<noteq> CHR ''.''" by auto
    ultimately obtain f where "f \<in> set (Split s (CHR ''.''))" "c \<in> set f"
      using Split_covers by blast
    with sd have "c \<notin> set [CHR ''.'', CHR ''['', CHR '']'', CHR 0x27]"
      by (auto simp: simple_dotted_def is_identifier_def list_all_iff)
    with that show False by auto
  qed
  then show ?thesis by (auto simp: IndexAny_neg_iff)
qed

lemma String_fieldPart_Split: "String \<lparr>parts = map fieldPart (Split s (CHR ''.''))\<rparr> = s"
proof -
  have "map partString (map fieldPart fs) = fs" for fs
    by (induction fs) (simp_all add: partString_def fieldPart_def)
  then show ?thesis by (simp add: String_def Join_Split)
qed

subsection \<open>The loop of the parser never leaves a stuck state\<close>

lemma FromString_loop_not_stuck:
  assumes "FromString_loop subject ps cursor lbp = Some y"
  shows "\<not> stuck subject cursor"
proof (rule FromString_loop.raw_induct
    [where P = "\<lambda>subject ps cursor lbp y. \<not> stuck subject cursor", OF _ assms], goal_cases)
  case (1 f subject ps cursor lbp y)
  show ?case
  proof
    assume st: "stuck subject cursor"
    with 1(2) have "f subject ps cursor lbp = Some y"
      by (simp add: stuck_def Let_def)
    from 1(1) [OF this] st show False by simp
  qed
qed

lemma FromString_loop_stuck:
  "stuck subject cursor \<Longrightarrow> FromString_loop subject ps cursor lbp = None"
  using FromString_loop_not_stuck [of subject ps cursor lbp]
  by (cases "FromString_loop subject ps cursor lbp") auto

subsection \<open>Case folding and prefixes\<close>

lemma foldRune_refl: "foldRune orbit r r"
  by (simp add: foldRune_def)

lemma EqualFold_refl: "EqualFold runes orbit s s"
proof (induction s)
  case Nil
  show ?case by simp
next
  case (Cons c s)
  have "list_all2 (foldRune orbit) rs rs" for rs
    by (induction rs) (simp_all add: foldRune_refl)
  with Cons show ?case by (simp add: hasUnicode_def)
qed

lemma HasPrefix_loop_Fold:
  "HasPrefix_loop ps i ss \<Longrightarrow> HasPrefixFold_loop runes orbit ps i ss"
proof (induction ss arbitrary: i)
  case Nil
  show ?case by simp
next
  case (Cons s ss)
  from Cons.prems have eq: "partString (ps ! i) = s" and rest: "HasPrefix_loop ps (i + 1) ss"
    by (auto split: if_splits)
  from Cons.IH [OF rest] eq show ?case
    by (simp add: EqualFold_refl)
qed

lemma HasPrefix_loop_iff:
  "i + length ss \<le> length ps \<Longrightarrow>
   HasPrefix_loop ps i ss \<longleftrightarrow> map partString (take (length ss) (drop i ps)) = ss"
proof (induction ss arbitrary: i)
  case Nil
  show ?case by simp
next
  case (Cons s ss)
  from Cons.prems have lt: "i < length ps" and le: "(i + 1) + length ss \<le> length ps"
    by simp_all
  from lt have dr: "drop i ps = ps ! i # drop (i + 1) ps"
    by (simp add: Cons_nth_drop_Suc)
  from Cons.IH [OF le] show ?case
    by (auto simp: dr)
qed

lemma HasPrefixFold_loop_iff:
  "i + length ss \<le> length ps \<Longrightarrow>
   HasPrefixFold_loop runes orbit ps i ss \<longleftrightarrow>
   list_all2 (EqualFold runes orbit) (map partString (take (length ss) (drop i ps))) ss"
proof (induction ss arbitrary: i)
  case Nil
  show ?case by simp
next
  case (Cons s ss)
  from Cons.prems have lt: "i < length ps" and le: "(i + 1) + length ss \<le> length ps"
    by simp_all
  from lt have dr: "drop i ps = ps ! i # drop (i + 1) ps"
    by (simp add: Cons_nth_drop_Suc)
  from Cons.IH [OF le] show ?case
    by (auto simp: dr)
qed

lemma HasPrefix_iff:
  "HasPrefix p subject \<longleftrightarrow>
     length (Split subject (CHR ''.'')) \<le> length (parts p) \<and>
     map partString (take (length (Split subject (CHR ''.''))) (parts p))
       = Split subject (CHR ''.'')"
  using HasPrefix_loop_iff [of 0 "Split subject (CHR ''.'')" "parts p"]
  by (auto simp: HasPrefix_def Let_def)

lemma HasPrefixFold_iff:
  "HasPrefixFold runes orbit p subject \<longleftrightarrow>
     length (Split subject (CHR ''.'')) \<le> length (parts p) \<and>
     list_all2 (EqualFold runes orbit)
       (map partString (take (length (Split subject (CHR ''.''))) (parts p)))
       (Split subject (CHR ''.''))"
  using HasPrefixFold_loop_iff [of 0 "Split subject (CHR ''.'')" "parts p" runes orbit]
  by (auto simp: HasPrefixFold_def Let_def)

subsection \<open>Slices\<close>

lemma take_drop_update_end:
  "n + k < length xs \<Longrightarrow> take (Suc k) (drop n (xs[n + k := x])) = take k (drop n xs) @ [x]"
  by (simp add: take_Suc_conv_app_nth drop_update_swap)

lemma append_slice_load:
  assumes "slice_ok h s" and "append_slice grow h s x = (h', s')"
  shows "slice_ok h' s' \<and> parts (load h' s') = parts (load h s) @ [x]"
proof (cases "len s < cap s")
  case True
  with assms(2) have h': "h' = h[arr s := (h ! arr s)[off s + len s := x]]"
    and s': "s' = s\<lparr>len := len s + 1\<rparr>"
    by (simp_all add: append_slice_def)
  from assms(1) True have b: "off s + len s < length (h ! arr s)" and a: "arr s < length h"
    by (simp_all add: slice_ok_def)
  with assms(1) True show ?thesis
    by (simp add: h' s' slice_ok_def load_def take_drop_update_end)
next
  case False
  with assms show ?thesis
    by (auto simp: append_slice_def slice_ok_def load_def Let_def nth_append)
qed

lemma append_all_load:
  "slice_ok h s \<Longrightarrow> append_all grow h s xs = (h', s') \<Longrightarrow>
   slice_ok h' s' \<and> parts (load h' s') = parts (load h s) @ xs"
proof (induction xs arbitrary: h s)
  case Nil
  then show ?case by simp
next
  case (Cons x xs)
  obtain h1 s1 where step: "append_slice grow h s x = (h1, s1)"
    by (cases "append_slice grow h s x")
  from append_slice_load [OF Cons.prems(1) step]
  have ok1: "slice_ok h1 s1" and l1: "parts (load h1 s1) = parts (load h s) @ [x]"
    by simp_all
  from Cons.prems(2) step have "append_all grow h1 s1 xs = (h', s')" by simp
  from Cons.IH [OF ok1 this] l1 show ?case by simp
qed

lemma store_load:
  assumes "store grow h p = (h', s)"
  shows "slice_ok h' s \<and> load h' s = p"
proof -
  have ok: "slice_ok (h @ [[]]) \<lparr>arr = length h, off = 0, len = 0, cap = 0\<rparr>"
    by (simp add: slice_ok_def)
  from assms
  have "append_all grow (h @ [[]]) \<lparr>arr = length h, off = 0, len = 0, cap = 0\<rparr> (parts p)
          = (h', s)"
    by (simp add: store_def empty_slice_def)
  from append_all_load [OF ok this] show ?thesis
    by (simp add: load_def)
qed

lemma len_load: "slice_ok h s \<Longrightarrow> len s = length (parts (load h s))"
  unfolding slice_ok_def load_def by simp linarith

lemma CopyAt_PushBack_alias:
  assumes ok: "slice_ok h p" and i: "0 \<le> i" "i + 1 < int (len p)"
    and copy: "CopyAt p i = Some q"
    and push: "PushBack grow h q x = (h', q')"
  shows "parts (load h' p) = (parts (load h p))[nat (i + 1) := stringPart x] \<and>
         parts (load h' q') = take (nat (i + 1)) (parts (load h p)) @ [stringPart x]"
proof -
  from i copy have q: "q = p\<lparr>len := nat (i + 1)\<rparr>"
    by (auto simp: CopyAt_def)
  from ok i have lt: "nat (i + 1) < cap p" unfolding slice_ok_def by linarith
  with push q have h': "h' = h[arr p := (h ! arr p)[off p + nat (i + 1) := stringPart x]]"
    and q': "q' = p\<lparr>len := nat (i + 1) + 1\<rparr>"
    by (simp_all add: PushBack_def append_slice_def)
  from ok i have b: "off p + nat (i + 1) < length (h ! arr p)" "arr p < length h"
    "nat (i + 1) < len p"
    unfolding slice_ok_def by linarith+
  have 1: "parts (load h' p) = (parts (load h p))[nat (i + 1) := stringPart x]"
    using b by (simp add: load_def h' take_update_swap drop_update_swap)
  have 2: "parts (load h' q') = take (nat (i + 1)) (parts (load h p)) @ [stringPart x]"
    using b by (simp add: load_def h' q' take_drop_update_end min_def)
  from 1 2 show ?thesis by simp
qed

lemma Copy_CopyAt_values:
  "load h (Copy s) = load h s"
  "slice_ok h s \<Longrightarrow> 0 \<le> i \<Longrightarrow> i < int (len s) \<Longrightarrow>
     \<exists>q. CopyAt s i = Some q \<and> Size (load h q) = i + 1 \<and>
         parts (load h q) = take (nat (i + 1)) (parts (load h s))"
  by (auto simp: Copy_def CopyAt_def Size_def load_def slice_ok_def min_def)




section \<open>The claims\<close>

text \<open>
  C6. For every valid simple dotted string \<open>s\<close> without brackets (a non-empty sequence of
  non-empty identifiers separated by dots), \<open>FromString s\<close> returns a Path, and \<open>String\<close>
  of that Path is \<open>s\<close> again.
\<close>

theorem FromString_String_roundtrip:
  "simple_dotted s \<Longrightarrow> \<exists>p. FromString s = Some (Inr p) \<and> String p = s"
  by (simp add: FromString_def simple_dotted_no_bracket String_fieldPart_Split)

theorem FromString_String_roundtrip_witness:
  "simple_dotted ''Author.Publisher.Name'' \<and>
   (\<exists>p. FromString ''Author.Publisher.Name'' = Some (Inr p) \<and>
        String p = ''Author.Publisher.Name'')"
proof -
  have h: "simple_dotted ''Author.Publisher.Name''"
    by (simp add: simple_dotted_def is_identifier_def)
  from h FromString_String_roundtrip [OF h] show ?thesis by simp
qed

text \<open>
  C1. Parsing \<^verbatim>\<open>"Publisher.Addresses[0].City"\<close> is claimed to yield the parts Field
  Publisher, Field Addresses, Element 0, Field City, every segment giving one Field for
  its identifier and then one Element or Key for each accessor. In the code the string
  has a bracket, so it goes to the loop; the first special byte is the dot at index 9,
  whose \<^verbatim>\<open>case\<close> is empty, and the loop repeats in the same state for ever. Where the
  first special byte is a bracket, as in \<^verbatim>\<open>"A[0]"\<close>, no Field is appended for the
  identifier before it, and the bytes after the index are read as a field name.
\<close>

theorem FromString_index_example_never_returns:
  "FromString ''Publisher.Addresses[0].City'' = None \<and>
   FromString ''A[0]'' = Some (Inr \<lparr>parts = [elementPart 0, fieldPart '']'']\<rparr>)"
proof -
  have "stuck ''Publisher.Addresses[0].City'' 0"
    by (simp add: stuck_def)
  then have 1: "FromString ''Publisher.Addresses[0].City'' = None"
    by (simp add: FromString_def FromString_loop_stuck)
  have step2: "FromString_loop ''A[0]'' [elementPart 0] 3 (- 1)
      = Some (Inr \<lparr>parts = [elementPart 0, fieldPart '']'']\<rparr>)"
    by (subst FromString_loop.simps) (simp add: Let_def)
  have 2: "FromString ''A[0]'' = Some (Inr \<lparr>parts = [elementPart 0, fieldPart '']'']\<rparr>)"
    unfolding FromString_def
    by (subst FromString_loop.simps)
      (simp add: Let_def IsDigit_def byte_def findElementIndexWithClosingOffset_def
        findElementIndex_loop.simps Atoi_def maxInt_def step2)
  from 1 2 show ?thesis by simp
qed

text \<open>
  C2. Parsing \<^verbatim>\<open>"Books['Gone With the Wind']"\<close> is claimed to yield Field Books and
  Key "Gone With the Wind". In the code the quote after the bracket leads to the test
  \<^verbatim>\<open>leftBracketPos < 0\<close>; \<^verbatim>\<open>leftBracketPos\<close> is never set to anything but \<open>-1\<close>, so the
  call returns \<^verbatim>\<open>ErrInvalidPath\<close>.
\<close>

theorem FromString_key_example_rejected:
  "FromString ''Books['Gone With the Wind']'' = Some (Inl ErrInvalidPath)"
  unfolding FromString_def
  by (subst FromString_loop.simps) (simp add: Let_def)

text \<open>
  C3, as amended. For each of \<^verbatim>\<open>"A["\<close>, \<^verbatim>\<open>"A[1"\<close>, \<^verbatim>\<open>"A[x]"\<close>, \<^verbatim>\<open>"A['b"\<close> and
  \<^verbatim>\<open>"A[['0']]"\<close>, \<open>FromString\<close> fails with \<open>ErrInvalidPath\<close> and returns no Path. The
  strings \<^verbatim>\<open>"A..B"\<close>, \<^verbatim>\<open>".A"\<close> and \<^verbatim>\<open>"A."\<close> have no bracket: they are split at the dots
  and returned as Field parts, the empty names included.
\<close>

theorem FromString_invalid_inputs:
  "FromString ''A['' = Some (Inl ErrInvalidPath) \<and>
   FromString ''A[1'' = Some (Inl ErrInvalidPath) \<and>
   FromString ''A[x]'' = Some (Inl ErrInvalidPath) \<and>
   FromString ''A['b'' = Some (Inl ErrInvalidPath) \<and>
   FromString ''A[['0']]'' = Some (Inl ErrInvalidPath) \<and>
   FromString ''A..B'' = Some (Inr \<lparr>parts = [fieldPart ''A'', fieldPart [], fieldPart ''B'']\<rparr>) \<and>
   FromString ''.A'' = Some (Inr \<lparr>parts = [fieldPart [], fieldPart ''A'']\<rparr>) \<and>
   FromString ''A.'' = Some (Inr \<lparr>parts = [fieldPart ''A'', fieldPart []]\<rparr>)"
proof -
  have a: "FromString ''A['' = Some (Inl ErrInvalidPath)"
    unfolding FromString_def
    by (subst FromString_loop.simps) (simp add: Let_def)
  have b: "FromString ''A[1'' = Some (Inl ErrInvalidPath)"
    unfolding FromString_def
    by (subst FromString_loop.simps)
      (simp add: Let_def IsDigit_def byte_def findElementIndexWithClosingOffset_def
        findElementIndex_loop.simps)
  have c: "FromString ''A[x]'' = Some (Inl ErrInvalidPath)"
    unfolding FromString_def
    by (subst FromString_loop.simps) (simp add: Let_def IsDigit_def byte_def)
  have d: "FromString ''A['b'' = Some (Inl ErrInvalidPath)"
    unfolding FromString_def
    by (subst FromString_loop.simps) (simp add: Let_def IsDigit_def byte_def)
  have e: "FromString ''A[['0']]'' = Some (Inl ErrInvalidPath)"
    unfolding FromString_def
    by (subst FromString_loop.simps) (simp add: Let_def IsDigit_def byte_def)
  have f: "FromString ''A..B''
      = Some (Inr \<lparr>parts = [fieldPart ''A'', fieldPart [], fieldPart ''B'']\<rparr>)"
    by (simp add: FromString_def)
  have g: "FromString ''.A'' = Some (Inr \<lparr>parts = [fieldPart [], fieldPart ''A'']\<rparr>)"
    by (simp add: FromString_def)
  have h: "FromString ''A.'' = Some (Inr \<lparr>parts = [fieldPart ''A'', fieldPart []]\<rparr>)"
    by (simp add: FromString_def)
  from a b c d e f g h show ?thesis by simp
qed

text \<open>C3 as stated fails at \<^verbatim>\<open>"A..B"\<close>: the call returns a Path, not \<open>ErrInvalidPath\<close>.\<close>

theorem FromString_double_dot_counterexample:
  "FromString ''A..B'' \<noteq> Some (Inl ErrInvalidPath) \<and>
   FromString ''A..B''
     = Some (Inr \<lparr>parts = [fieldPart ''A'', fieldPart [], fieldPart ''B'']\<rparr>)"
  by (simp add: FromString_def)



text \<open>
  C5. \<open>FromString\<close> is claimed to return on every input. In the code, a string that has a
  bracket somewhere and whose first special byte (dot or left bracket) is a dot is never
  answered: the round of the loop that finds the dot changes no variable.
\<close>

theorem FromString_never_returns:
  assumes "0 \<le> IndexAny subject ''[]''"
    and "subject ! nat (IndexAny subject ''[.'') = CHR ''.''"
  shows "FromString subject = None"
proof -
  from assms(1) have ne: "subject \<noteq> []"
    by (cases subject) auto
  have nn: "0 \<le> IndexAny subject ''[.''"
  proof (rule ccontr)
    assume "\<not> 0 \<le> IndexAny subject ''[.''"
    then have neg: "IndexAny subject ''[.'' < 0" by simp
    then have "nat (IndexAny subject ''[.'') = 0" by simp
    with assms(2) ne have "CHR ''.'' \<in> set subject"
      by (cases subject) auto
    with neg show False by (auto simp: IndexAny_neg_iff)
  qed
  with assms(2) have "stuck subject 0"
    by (simp add: stuck_def)
  with assms(1) show ?thesis
    by (simp add: FromString_def FromString_loop_stuck)
qed

theorem FromString_never_returns_witness:
  "0 \<le> IndexAny ''Author.Publishers.Addresses[0].City'' ''[]'' \<and>
   ''Author.Publishers.Addresses[0].City''
     ! nat (IndexAny ''Author.Publishers.Addresses[0].City'' ''[.'') = CHR ''.'' \<and>
   FromString ''Author.Publishers.Addresses[0].City'' = None"
proof -
  have h1: "0 \<le> IndexAny ''Author.Publishers.Addresses[0].City'' ''[]''"
    by simp
  have h2: "''Author.Publishers.Addresses[0].City''
     ! nat (IndexAny ''Author.Publishers.Addresses[0].City'' ''[.'') = CHR ''.''"
    by simp
  from h1 h2 FromString_never_returns [OF h1 h2] show ?thesis by simp
qed

text \<open>
  C7. \<open>Copy\<close> and \<open>CopyAt\<close> are claimed to return Paths that are independent of the
  original. In the code the returned Path holds a slice of the original's backing array.
  For the Path \<open>p\<close> parsed from \<^verbatim>\<open>"X.Y"\<close>, \<^verbatim>\<open>q := p.CopyAt(0)\<close> has length 1 and the
  capacity of \<open>p\<close>, so \<^verbatim>\<open>q.PushBack("Z")\<close> appends in place and overwrites the second
  part of \<open>p\<close>: afterwards \<open>p\<close> reads \<^verbatim>\<open>"X.Z"\<close>, whatever the growth policy of the
  runtime.
\<close>

theorem CopyAt_PushBack_changes_original:
  assumes "FromString ''X.Y'' = Some (Inr p0)"
    and "store grow h0 p0 = (h1, p)"
    and "CopyAt p 0 = Some q"
    and "PushBack grow h1 q ''Z'' = (h2, q')"
  shows "String (load h1 p) = ''X.Y'' \<and> String (load h2 p) = ''X.Z'' \<and>
         String (load h2 q') = ''X.Z''"
proof -
  from assms(1) have p0: "p0 = \<lparr>parts = [fieldPart ''X'', fieldPart ''Y'']\<rparr>"
    by (simp add: FromString_def)
  from store_load [OF assms(2)] have ok: "slice_ok h1 p" and l: "load h1 p = p0"
    by simp_all
  from len_load [OF ok] l p0 have n: "len p = 2" by simp
  then have i: "(0::int) \<le> 0" "(0::int) + 1 < int (len p)" by simp_all
  from CopyAt_PushBack_alias [OF ok i assms(3) assms(4)] l p0
  have "parts (load h2 p) = [fieldPart ''X'', stringPart ''Z'']"
    and "parts (load h2 q') = [fieldPart ''X'', stringPart ''Z'']"
    by simp_all
  with l p0 show ?thesis
    by (simp add: String_def partString_def fieldPart_def stringPart_def)
qed

theorem CopyAt_PushBack_changes_original_witness:
  "FromString ''X.Y'' = Some (Inr \<lparr>parts = [fieldPart ''X'', fieldPart ''Y'']\<rparr>) \<and>
   store (\<lambda>c. 2 * c) [] \<lparr>parts = [fieldPart ''X'', fieldPart ''Y'']\<rparr>
     = ([[], [fieldPart ''X''], [fieldPart ''X'', fieldPart ''Y'']],
        \<lparr>arr = 2, off = 0, len = 2, cap = 2\<rparr>) \<and>
   CopyAt \<lparr>arr = 2, off = 0, len = 2, cap = 2\<rparr> 0
     = Some \<lparr>arr = 2, off = 0, len = 1, cap = 2\<rparr> \<and>
   PushBack (\<lambda>c. 2 * c) [[], [fieldPart ''X''], [fieldPart ''X'', fieldPart ''Y'']]
       \<lparr>arr = 2, off = 0, len = 1, cap = 2\<rparr> ''Z''
     = ([[], [fieldPart ''X''], [fieldPart ''X'', fieldPart ''Z'']],
        \<lparr>arr = 2, off = 0, len = 2, cap = 2\<rparr>) \<and>
   String (load [[], [fieldPart ''X''], [fieldPart ''X'', fieldPart ''Y'']]
       \<lparr>arr = 2, off = 0, len = 2, cap = 2\<rparr>) = ''X.Y'' \<and>
   String (load [[], [fieldPart ''X''], [fieldPart ''X'', fieldPart ''Z'']]
       \<lparr>arr = 2, off = 0, len = 2, cap = 2\<rparr>) = ''X.Z''"
proof -
  have a1: "FromString ''X.Y'' = Some (Inr \<lparr>parts = [fieldPart ''X'', fieldPart ''Y'']\<rparr>)"
    by (simp add: FromString_def)
  have a2: "store (\<lambda>c. 2 * c) [] \<lparr>parts = [fieldPart ''X'', fieldPart ''Y'']\<rparr>
     = ([[], [fieldPart ''X''], [fieldPart ''X'', fieldPart ''Y'']],
        \<lparr>arr = 2, off = 0, len = 2, cap = 2\<rparr>)"
    by (simp add: store_def empty_slice_def append_slice_def Let_def)
  have a3: "CopyAt \<lparr>arr = 2, off = 0, len = 2, cap = 2\<rparr> 0
     = Some \<lparr>arr = 2, off = 0, len = 1, cap = 2\<rparr>"
    by (simp add: CopyAt_def)
  have a4: "PushBack (\<lambda>c. 2 * c) [[], [fieldPart ''X''], [fieldPart ''X'', fieldPart ''Y'']]
       \<lparr>arr = 2, off = 0, len = 1, cap = 2\<rparr> ''Z''
     = ([[], [fieldPart ''X''], [fieldPart ''X'', fieldPart ''Z'']],
        \<lparr>arr = 2, off = 0, len = 2, cap = 2\<rparr>)"
    by (simp add: PushBack_def append_slice_def stringPart_def fieldPart_def)
  from a1 a2 a3 a4 CopyAt_PushBack_changes_original [OF a1 a2 a3 a4]
  show ?thesis by simp
qed

text \<open>
  C8. \<open>HasPrefix\<close> compares case-sensitively and \<open>HasPrefixFold\<close> case-insensitively. Both
  split the subject at the dots and compare the pieces with the parts of the Path from
  the front, and both are false when there are more pieces than parts. For the Path
  parsed from \<^verbatim>\<open>"A.B"\<close>: \<open>HasPrefix\<close> is false and \<open>HasPrefixFold\<close> is true for \<^verbatim>\<open>"a"\<close>;
  both are true for \<^verbatim>\<open>"A"\<close> and \<^verbatim>\<open>"A.B"\<close>, and false for \<^verbatim>\<open>"A.B.C"\<close> and \<^verbatim>\<open>"B"\<close>.
\<close>

theorem HasPrefix_HasPrefixFold_compare:
  "(\<exists>ab. FromString ''A.B'' = Some (Inr ab) \<and>
      \<not> HasPrefix ab ''a'' \<and> HasPrefixFold runes orbit ab ''a'' \<and>
      HasPrefix ab ''A'' \<and> HasPrefixFold runes orbit ab ''A'' \<and>
      HasPrefix ab ''A.B'' \<and> HasPrefixFold runes orbit ab ''A.B'' \<and>
      \<not> HasPrefix ab ''A.B.C'' \<and> \<not> HasPrefixFold runes orbit ab ''A.B.C'' \<and>
      \<not> HasPrefix ab ''B'' \<and> \<not> HasPrefixFold runes orbit ab ''B'') \<and>
   (length (Split subject (CHR ''.'')) > length (parts p) \<longrightarrow>
      \<not> HasPrefix p subject \<and> \<not> HasPrefixFold runes orbit p subject) \<and>
   (HasPrefix p subject \<longleftrightarrow>
      length (Split subject (CHR ''.'')) \<le> length (parts p) \<and>
      map partString (take (length (Split subject (CHR ''.''))) (parts p))
        = Split subject (CHR ''.'')) \<and>
   (HasPrefixFold runes orbit p subject \<longleftrightarrow>
      length (Split subject (CHR ''.'')) \<le> length (parts p) \<and>
      list_all2 (EqualFold runes orbit)
        (map partString (take (length (Split subject (CHR ''.''))) (parts p)))
        (Split subject (CHR ''.'')))"
proof -
  let ?ab = "\<lparr>parts = [fieldPart ''A'', fieldPart ''B'']\<rparr>"
  have 0: "FromString ''A.B'' = Some (Inr ?ab)"
    by (simp add: FromString_def)
  have 1: "\<not> HasPrefix ?ab ''a'' \<and> HasPrefix ?ab ''A'' \<and> HasPrefix ?ab ''A.B'' \<and>
      \<not> HasPrefix ?ab ''A.B.C'' \<and> \<not> HasPrefix ?ab ''B''"
    by (simp add: HasPrefix_def fieldPart_def partString_def)
  have 2: "HasPrefixFold runes orbit ?ab ''a'' \<and> HasPrefixFold runes orbit ?ab ''A'' \<and>
      HasPrefixFold runes orbit ?ab ''A.B'' \<and> \<not> HasPrefixFold runes orbit ?ab ''A.B.C'' \<and>
      \<not> HasPrefixFold runes orbit ?ab ''B''"
    by (simp add: HasPrefixFold_def fieldPart_def partString_def byte_def)
  have 3: "length (Split subject (CHR ''.'')) > length (parts p) \<longrightarrow>
      \<not> HasPrefix p subject \<and> \<not> HasPrefixFold runes orbit p subject"
    by (simp add: HasPrefix_def HasPrefixFold_def Let_def)
  from 0 1 2 have "\<exists>ab. FromString ''A.B'' = Some (Inr ab) \<and>
      \<not> HasPrefix ab ''a'' \<and> HasPrefixFold runes orbit ab ''a'' \<and>
      HasPrefix ab ''A'' \<and> HasPrefixFold runes orbit ab ''A'' \<and>
      HasPrefix ab ''A.B'' \<and> HasPrefixFold runes orbit ab ''A.B'' \<and>
      \<not> HasPrefix ab ''A.B.C'' \<and> \<not> HasPrefixFold runes orbit ab ''A.B.C'' \<and>
      \<not> HasPrefix ab ''B'' \<and> \<not> HasPrefixFold runes orbit ab ''B''"
    by blast
  with 3 HasPrefix_iff [of p subject] HasPrefixFold_iff [of runes orbit p subject]
  show ?thesis by blast
qed

theorem HasPrefix_HasPrefixFold_compare_witness:
  "length (Split ''A.B.C'' (CHR ''.'')) > length (parts \<lparr>parts = [fieldPart ''A'', fieldPart ''B'']\<rparr>) \<and>
   \<not> HasPrefix \<lparr>parts = [fieldPart ''A'', fieldPart ''B'']\<rparr> ''A.B.C'' \<and>
   \<not> HasPrefixFold (map of_char) (\<lambda>lo hi. False)
       \<lparr>parts = [fieldPart ''A'', fieldPart ''B'']\<rparr> ''A.B.C'' \<and>
   FromString ''A.B'' = Some (Inr \<lparr>parts = [fieldPart ''A'', fieldPart ''B'']\<rparr>) \<and>
   \<not> HasPrefix \<lparr>parts = [fieldPart ''A'', fieldPart ''B'']\<rparr> ''a'' \<and>
   HasPrefixFold (map of_char) (\<lambda>lo hi. False)
       \<lparr>parts = [fieldPart ''A'', fieldPart ''B'']\<rparr> ''a''"
proof -
  have h: "length (Split ''A.B.C'' (CHR ''.''))
      > length (parts \<lparr>parts = [fieldPart ''A'', fieldPart ''B'']\<rparr>)"
    by simp
  have 0: "FromString ''A.B'' = Some (Inr \<lparr>parts = [fieldPart ''A'', fieldPart ''B'']\<rparr>)"
    by (simp add: FromString_def)
  from h 0 HasPrefix_HasPrefixFold_compare
    [where runes = "map of_char" and orbit = "\<lambda>lo hi. False" and subject = "''A.B.C''"
      and p = "\<lparr>parts = [fieldPart ''A'', fieldPart ''B'']\<rparr>"]
  show ?thesis by auto
qed



text \<open>
  C10. For every Path \<open>p\<close> and every subject \<open>s\<close>, \<open>HasPrefix p s\<close> implies
  \<open>HasPrefixFold p s\<close>: equal strings are equal under case folding, and the split at the
  dots and the length test are the same in both.
\<close>

theorem HasPrefix_imp_HasPrefixFold:
  "HasPrefix p subject \<longrightarrow> HasPrefixFold runes orbit p subject"
  by (auto simp: HasPrefix_def HasPrefixFold_def Let_def HasPrefix_loop_Fold split: if_splits)

theorem HasPrefix_imp_HasPrefixFold_witness:
  "HasPrefix \<lparr>parts = [fieldPart ''Author'', fieldPart ''Name'']\<rparr> ''Author'' \<and>
   HasPrefixFold (map of_char) (\<lambda>lo hi. False)
     \<lparr>parts = [fieldPart ''Author'', fieldPart ''Name'']\<rparr> ''Author''"
proof -
  have h: "HasPrefix \<lparr>parts = [fieldPart ''Author'', fieldPart ''Name'']\<rparr> ''Author''"
    by (simp add: HasPrefix_def fieldPart_def partString_def)
  from h HasPrefix_imp_HasPrefixFold
    [where p = "\<lparr>parts = [fieldPart ''Author'', fieldPart ''Name'']\<rparr>"
      and subject = "''Author''" and runes = "map of_char" and orbit = "\<lambda>lo hi. False"]
  show ?thesis by blast
qed

end
